theory Spec2Isabelle
  imports Main "HOL-Library.AList"
begin

section \<open>Event correlation tool of cfme.utils.events\<close>

text \<open>
  A shallow embedding of \<^verbatim>\<open>src/cfme/utils/events.py\<close>: the classes
  \<^verbatim>\<open>EventTool\<close>, \<^verbatim>\<open>EventAttr\<close>, \<^verbatim>\<open>Event\<close> and \<^verbatim>\<open>EventListener\<close>.
  Objects are records, dictionaries are association lists (a key is stored once;
  a store overwrites in place or appends), exceptions are values of \<open>error\<close>, and
  the REST API of the appliance, which is not part of the module, is a parameter.
\<close>

subsection \<open>Python values\<close>

text \<open>
  The attribute values the module handles are \<^verbatim>\<open>None\<close>, integers (database ids)
  and strings. \<open>truthy\<close> is Python's truth value of such a value: \<^verbatim>\<open>None\<close>,
  \<^verbatim>\<open>0\<close> and the empty string are false.
\<close>

datatype pyval = PNone | PInt int | PStr string

fun truthy :: "pyval \<Rightarrow> bool" where
  "truthy PNone = False"
| "truthy (PInt n) = (n \<noteq> 0)"
| "truthy (PStr s) = (s \<noteq> [])"

text \<open>\<^verbatim>\<open>isinstance(v, Number)\<close>.\<close>

fun is_number :: "pyval \<Rightarrow> bool" where
  "is_number (PInt n) = True"
| "is_number v = False"

datatype pytype = NoneType | IntType | StrType

fun type_of :: "pyval \<Rightarrow> pytype" where
  "type_of PNone = NoneType"
| "type_of (PInt n) = IntType"
| "type_of (PStr s) = StrType"

text \<open>
  Exceptions, with the message of the \<^verbatim>\<open>raise\<close> statement (format templates are kept
  as written, unformatted). \<open>Raised\<close> is an exception of a caller-supplied callback or
  of the REST client.
\<close>

datatype error =
    ValueError string
  | TypeError string
  | KeyError string
  | IndexError string
  | AttributeError string
  | Raised string

subsection \<open>EventAttr\<close>

record EventAttr =
  name :: string
  val :: pyval
  atype :: pytype
  cmp_func :: "(pyval \<Rightarrow> pyval \<Rightarrow> bool) option"

text \<open>
  \<^verbatim>\<open>EventAttr.__init__(attr_type=None, cmp_func=None, **attrs)\<close>: more than one
  keyword pair is refused; with none, \<^verbatim>\<open>attrs.items()[0]\<close> raises IndexError.
\<close>

definition EventAttr_init ::
  "pytype option \<Rightarrow> (pyval \<Rightarrow> pyval \<Rightarrow> bool) option \<Rightarrow> (string \<times> pyval) list \<Rightarrow> error + EventAttr"
where
  "EventAttr_init attr_type cmp attrs =
     (if length attrs > 1
      then Inl (ValueError ''event attribute can have only one key=value pair'')
      else (case attrs of
              [] \<Rightarrow> Inl (IndexError ''list index out of range'')
            | (n, v) # _ \<Rightarrow>
                Inr \<lparr>name = n, val = v,
                     atype = (case attr_type of Some t \<Rightarrow> t | None \<Rightarrow> type_of v),
                     cmp_func = cmp\<rparr>))"

text \<open>The call \<^verbatim>\<open>EventAttr(**{n: v})\<close>, which cannot fail.\<close>

definition EventAttr_kw :: "string \<Rightarrow> pyval \<Rightarrow> EventAttr" where
  "EventAttr_kw n v = \<lparr>name = n, val = v, atype = type_of v, cmp_func = None\<rparr>"

text \<open>What \<^verbatim>\<open>match\<close> can be passed: an EventAttr, or any other object.\<close>

datatype pyobj = AttrObj EventAttr | OtherObj pyval

definition match :: "EventAttr \<Rightarrow> pyobj \<Rightarrow> error + bool" where
  "match self attr =
     (case attr of
        OtherObj _ \<Rightarrow> Inl (ValueError ''Incorrect attribute is passed'')
      | AttrObj a \<Rightarrow>
          if name self \<noteq> name a then Inl (ValueError ''Incorrect attribute is passed'')
          else if \<not> truthy (val a) \<or> \<not> truthy (val self)
               then Inr (val a = PNone \<and> val self = PNone)
          else (case cmp_func self of
                  Some f \<Rightarrow> Inr (f (val self) (val a))
                | None \<Rightarrow> Inr (val self = val a)))"

subsection \<open>Event\<close>

text \<open>
  \<open>event_attrs\<close> is the dictionary of the object, in some iteration order. The
  reference to the EventTool is not a field: the appliance is passed where it is used.
\<close>

record Event =
  event_attrs :: "(string \<times> EventAttr) list"

definition DEFAULT_ATTRS :: "string list" where
  "DEFAULT_ATTRS =
     [''created_on'', ''event_type'', ''href'', ''id'', ''message'', ''source'',
      ''target_id'', ''target_type'', ''timestamp'']"

definition keys :: "Event \<Rightarrow> string list" where
  "keys e = map fst (event_attrs e)"

definition lookup :: "Event \<Rightarrow> string \<Rightarrow> EventAttr option" where
  "lookup e k = map_of (event_attrs e) k"

definition store :: "Event \<Rightarrow> string \<Rightarrow> EventAttr \<Rightarrow> Event" where
  "store e k a = e\<lparr>event_attrs := AList.update k a (event_attrs e)\<rparr>"

text \<open>\<^verbatim>\<open>Event(event_tool)\<close> with no further argument.\<close>

definition Event_init :: Event where
  "Event_init = \<lparr>event_attrs = []\<rparr>"

text \<open>\<^verbatim>\<open>add_attrs\<close>: an attribute outside the default set is logged and dropped.\<close>

fun add_attrs :: "Event \<Rightarrow> EventAttr list \<Rightarrow> Event" where
  "add_attrs self [] = self"
| "add_attrs self (attr # attrs) =
     add_attrs
       (if name attr = ''target_name'' then store self (name attr) attr
        else if name attr \<in> set DEFAULT_ATTRS then store self (name attr) attr
        else self)
       attrs"

text \<open>
  A REST entity is its attributes; \<^verbatim>\<open>getattr(entity, key, None)\<close> reads one.
\<close>

type_synonym entity = "(string \<times> pyval) list"

definition getattr :: "entity \<Rightarrow> string \<Rightarrow> pyval" where
  "getattr e k = (case map_of e k of Some v \<Rightarrow> v | None \<Rightarrow> PNone)"

fun build_loop :: "Event \<Rightarrow> entity \<Rightarrow> string list \<Rightarrow> Event" where
  "build_loop self event_entity [] = self"
| "build_loop self event_entity (key # ks) =
     build_loop (add_attrs self [EventAttr_kw key (getattr event_entity key)]) event_entity ks"

definition build_from_entity :: "Event \<Rightarrow> entity \<Rightarrow> Event" where
  "build_from_entity self event_entity = build_loop self event_entity DEFAULT_ATTRS"

text \<open>
  \<^verbatim>\<open>matches\<close>: the loop over the common keys returns at the first attribute that
  does not match, and a \<^verbatim>\<open>match\<close> that raises ends it with the exception.
\<close>

definition common_attrs :: "Event \<Rightarrow> Event \<Rightarrow> string list" where
  "common_attrs self evt = filter (\<lambda>k. k \<in> set (keys evt)) (remdups (keys self))"

fun matches_loop :: "Event \<Rightarrow> Event \<Rightarrow> string list \<Rightarrow> error + bool" where
  "matches_loop self evt [] = Inr True"
| "matches_loop self evt (k # ks) =
     (case lookup self k of
        None \<Rightarrow> Inl (KeyError k)
      | Some a \<Rightarrow>
          (case lookup evt k of
             None \<Rightarrow> Inl (KeyError k)
           | Some b \<Rightarrow>
               (case match a (AttrObj b) of
                  Inl err \<Rightarrow> Inl err
                | Inr r \<Rightarrow> if \<not> r then Inr False else matches_loop self evt ks)))"

definition matches :: "Event \<Rightarrow> Event \<Rightarrow> error + bool" where
  "matches self evt = matches_loop self evt (common_attrs self evt)"

text \<open>
  Every Event the class builds stores an attribute under the attribute's own name
  (\<^verbatim>\<open>add_attrs\<close> and \<^verbatim>\<open>add_target_id\<close> are the only writers).
\<close>

definition keyed_by_name :: "Event \<Rightarrow> bool" where
  "keyed_by_name e = list_all (\<lambda>(k, a). name a = k) (event_attrs e)"

subsection \<open>The appliance's REST API\<close>

text \<open>
  The REST client is not part of the module. A query is the filter object the module
  builds (\<^verbatim>\<open>Q(field, op, value)\<close>, joined by \<^verbatim>\<open>&\<close>), and an appliance is what its
  collections answer at one moment: \<open>collection_filter a c q\<close> is
  \<^verbatim>\<open>getattr(rest_api.collections, c).filter(q)\<close>, \<open>event_streams_filter a q\<close> is
  \<^verbatim>\<open>event_streams.filter(q)\<close> and \<open>event_streams_latest a\<close> is
  \<^verbatim>\<open>event_streams.query_string(limit=1, sort_order='desc', sort_by='id')\<close>. A call
  may raise. A record of an object collection always has an id.
\<close>

datatype Q = Q string string pyval | QAnd Q Q

record resource =
  rid :: pyval

record appliance =
  collection_filter :: "string \<Rightarrow> Q \<Rightarrow> error + resource list"
  event_streams_filter :: "Q \<Rightarrow> error + entity list"
  event_streams_latest :: "error + entity list"

subsection \<open>EventTool\<close>

definition TARGET_TYPES :: "(string \<times> string) list" where
  "TARGET_TYPES = [(''VmOrTemplate'', ''vms''), (''Host'', ''hosts''), (''Service'', ''services'')]"

text \<open>\<^verbatim>\<open>target_type in TARGET_TYPES\<close>, the keys being strings.\<close>

fun target_rest_of :: "pyval \<Rightarrow> string option" where
  "target_rest_of (PStr s) = map_of TARGET_TYPES s"
| "target_rest_of v = None"

definition process_id :: "appliance \<Rightarrow> pyval \<Rightarrow> pyval \<Rightarrow> error + pyval" where
  "process_id tool target_type target_name =
     (if is_number target_name then Inr target_name
      else (case target_rest_of target_type of
              None \<Rightarrow>
                Inl (TypeError (''Type {} is not specified in the auto-coercion TARGET_TYPES. '' @
                                ''Pass a real id of the object or extend the table.''))
            | Some target_rest \<Rightarrow>
                (case collection_filter tool target_rest (Q ''name'' ''='' target_name) of
                   Inl err \<Rightarrow> Inl err
                 | Inr [] \<Rightarrow> Inl (ValueError ''{} with name {} not found.'')
                 | Inr (r # _) \<Rightarrow> Inr (rid r))))"

subsection \<open>Event.add_target_id\<close>

text \<open>
  The lookup of \<^verbatim>\<open>target_type\<close> is inside the \<^verbatim>\<open>try\<close>, which catches ValueError
  only: a missing \<^verbatim>\<open>target_type\<close> (KeyError) and an unmapped type (TypeError) go
  to the caller. The event is changed only by the store at the end.
\<close>

definition add_target_id :: "appliance \<Rightarrow> Event \<Rightarrow> error + Event" where
  "add_target_id tool self =
     (if ''target_name'' \<in> set (keys self) \<and> ''target_id'' \<notin> set (keys self) then
        (case lookup self ''target_type'' of
           None \<Rightarrow> Inl (KeyError ''target_type'')
         | Some tt \<Rightarrow>
             (case lookup self ''target_name'' of
                None \<Rightarrow> Inl (KeyError ''target_name'')
              | Some tn \<Rightarrow>
                  (case process_id tool (val tt) (val tn) of
                     Inl (ValueError _) \<Rightarrow> Inr self
                   | Inl err \<Rightarrow> Inl err
                   | Inr target_id \<Rightarrow>
                       Inr (store self ''target_id'' (EventAttr_kw ''target_id'' target_id)))))
      else Inr self)"

subsection \<open>EventListener\<close>

text \<open>
  An entry of \<^verbatim>\<open>_events_to_listen\<close>. A callback is called with the expected and the
  received event; it either returns (\<open>None\<close>) or raises. Each entry holds its
  expectation by value.
\<close>

record exp_event =
  event :: Event
  callback :: "(Event \<Rightarrow> Event \<Rightarrow> error option) option"
  matched_events :: "Event list"
  first_event :: bool

text \<open>
  The listener's fields. \<open>id_log\<close> is not a field of the class: it lists the values
  assigned to \<^verbatim>\<open>_last_processed_id\<close>, the newest first, so that a statement can
  speak of successive assignments. The stop flag is written by other threads; what the
  polling loop reads of it is an input of the loop.
\<close>

record listener =
  events_to_listen :: "exp_event list"
  last_processed_id :: pyval
  id_log :: "pyval list"

definition EventListener_init :: listener where
  "EventListener_init = \<lparr>events_to_listen = [], last_processed_id = PNone, id_log = [PNone]\<rparr>"

definition assign_last_processed_id :: "pyval \<Rightarrow> listener \<Rightarrow> listener" where
  "assign_last_processed_id v l = l\<lparr>last_processed_id := v, id_log := v # id_log l\<rparr>"

text \<open>
  \<^verbatim>\<open>set_last_record(evt)\<close>: an Event object is always true, so \<open>Some evt\<close> takes the
  first branch; \<open>None\<close> asks the event stream for its latest record, and an empty
  answer (the IndexError of \<^verbatim>\<open>[0]\<close>) leaves the watermark as it is.
\<close>

definition set_last_record :: "appliance \<Rightarrow> Event option \<Rightarrow> listener \<Rightarrow> error option \<times> listener" where
  "set_last_record tool evt l =
     (case evt of
        Some e \<Rightarrow>
          (case lookup e ''id'' of
             None \<Rightarrow> (Some (KeyError ''id''), l)
           | Some a \<Rightarrow> (None, assign_last_processed_id (val a) l))
      | None \<Rightarrow>
          (case event_streams_latest tool of
             Inl (IndexError _) \<Rightarrow> (None, l)
           | Inl err \<Rightarrow> (Some err, l)
           | Inr [] \<Rightarrow> (None, l)
           | Inr (r # _) \<Rightarrow>
               (case map_of r ''id'' of
                  None \<Rightarrow> (Some (AttributeError ''id''), l)
                | Some v \<Rightarrow> (None, assign_last_processed_id v l))))"

text \<open>What \<^verbatim>\<open>listen_to\<close> can be passed: an Event, or any other object.\<close>

datatype evtobj = EventObj Event | NotEvent pyval

fun listen_to ::
  "evtobj list \<Rightarrow> (Event \<Rightarrow> Event \<Rightarrow> error option) option \<Rightarrow> bool \<Rightarrow> listener \<Rightarrow> error option \<times> listener"
where
  "listen_to [] cb first l = (None, l)"
| "listen_to (EventObj evt # evts) cb first l =
     listen_to evts cb first
       (l\<lparr>events_to_listen := events_to_listen l @
            [\<lparr>event = evt, callback = cb, matched_events = [], first_event = first\<rparr>]\<rparr>)"
| "listen_to (NotEvent v # evts) cb first l =
     (Some (ValueError ''one of events doesn't belong to Event class''), l)"

text \<open>\<^verbatim>\<open>start\<close>: the watermark is set before the thread runs \<^verbatim>\<open>process_events\<close>.\<close>

definition start :: "appliance \<Rightarrow> listener \<Rightarrow> error option \<times> listener" where
  "start tool l = set_last_record tool None l"

definition FILTER_ATTRS :: "string list" where
  "FILTER_ATTRS = [''event_type'', ''target_type'', ''target_id'', ''source'']"

fun add_filters :: "Event \<Rightarrow> string list \<Rightarrow> Q \<Rightarrow> error + Q" where
  "add_filters evt [] q = Inr q"
| "add_filters evt (filter_attr # fs) q =
     (case lookup evt filter_attr of
        None \<Rightarrow> Inl (KeyError filter_attr)
      | Some evt_attr \<Rightarrow>
          add_filters evt fs
            (if truthy (val evt_attr) then QAnd q (Q filter_attr ''='' (val evt_attr)) else q))"

text \<open>
  \<^verbatim>\<open>get_next_portion\<close> returns the event with its result, since \<^verbatim>\<open>add_target_id\<close>
  may have stored the target id in it: \<open>Inr None\<close> is the bare \<^verbatim>\<open>return\<close>,
  \<open>Inr (Some es)\<close> the records of the query.
\<close>

definition get_next_portion ::
  "appliance \<Rightarrow> listener \<Rightarrow> Event \<Rightarrow> (error + entity list option) \<times> Event"
where
  "get_next_portion tool l evt =
     (case add_target_id tool evt of
        Inl err \<Rightarrow> (Inl err, evt)
      | Inr evt' \<Rightarrow>
          if ''target_id'' \<notin> set (keys evt') then (Inr None, evt')
          else (case add_filters evt'
                       (filter (\<lambda>k. k \<in> set (keys evt')) FILTER_ATTRS)
                       (Q ''id'' ''>'' (last_processed_id l)) of
                  Inl err \<Rightarrow> (Inl err, evt')
                | Inr q \<Rightarrow>
                    (case event_streams_filter tool q of
                       Inl err \<Rightarrow> (Inl err, evt')
                     | Inr es \<Rightarrow> (Inr (Some es), evt'))))"

text \<open>
  The body of the inner loop of \<^verbatim>\<open>process_events\<close> for one record, on the entry at
  index \<open>i\<close> of the registry.
\<close>

definition process_entity :: "appliance \<Rightarrow> nat \<Rightarrow> entity \<Rightarrow> listener \<Rightarrow> error option \<times> listener" where
  "process_entity tool i event_entity l =
     (let exp = events_to_listen l ! i;
          got_event = build_from_entity Event_init event_entity
      in (case matches (event exp) got_event of
            Inl err \<Rightarrow> (Some err, l)
          | Inr m \<Rightarrow>
              if m then
                (case (case callback exp of
                         None \<Rightarrow> None
                       | Some cb \<Rightarrow> cb (event exp) got_event) of
                   Some err \<Rightarrow> (Some err, l)
                 | None \<Rightarrow>
                     set_last_record tool (Some got_event)
                       (l\<lparr>events_to_listen := (events_to_listen l)
                            [i := exp\<lparr>matched_events := matched_events exp @ [got_event]\<rparr>]\<rparr>))
              else set_last_record tool (Some got_event) l))"

fun match_events :: "appliance \<Rightarrow> nat \<Rightarrow> entity list \<Rightarrow> listener \<Rightarrow> error option \<times> listener" where
  "match_events tool i [] l = (None, l)"
| "match_events tool i (event_entity # es) l =
     (case process_entity tool i event_entity l of
        (Some err, l') \<Rightarrow> (Some err, l')
      | (None, l') \<Rightarrow> match_events tool i es l')"

text \<open>
  The body of the loop over the registry, for the entry at index \<open>i < length\<close>. The
  flag it returns says whether the loop goes on: \<open>stop_is_set\<close> is what
  \<^verbatim>\<open>_stop_event.is_set()\<close> answers at the end of the body, which the two
  \<^verbatim>\<open>continue\<close> statements skip.
\<close>

record step_input =
  tool :: appliance
  stop_is_set :: bool

definition loop_body :: "step_input \<Rightarrow> nat \<Rightarrow> listener \<Rightarrow> error option \<times> bool \<times> listener" where
  "loop_body inp i l =
     (let exp_event = events_to_listen l ! i in
      if first_event exp_event \<and> length (matched_events exp_event) > 0 then (None, True, l)
      else
        (case get_next_portion (tool inp) l (event exp_event) of
           (r, evt') \<Rightarrow>
             (let l1 = l\<lparr>events_to_listen := (events_to_listen l)[i := exp_event\<lparr>event := evt'\<rparr>]\<rparr>
              in (case r of
                    Inl err \<Rightarrow> (Some err, False, l1)
                  | Inr None \<Rightarrow> (None, True, l1)
                  | Inr (Some []) \<Rightarrow> (None, True, l1)
                  | Inr (Some es) \<Rightarrow>
                      (case match_events (tool inp) i es l1 of
                         (Some err, l2) \<Rightarrow> (Some err, False, l2)
                       | (None, l2) \<Rightarrow> (None, \<not> stop_is_set inp, l2))))))"

text \<open>
  One pass of the \<^verbatim>\<open>for\<close> loop over the registry; \<open>inputs i\<close> is what the body
  meets at entry \<open>i\<close>.
\<close>

fun for_loop :: "(nat \<Rightarrow> step_input) \<Rightarrow> nat list \<Rightarrow> listener \<Rightarrow> error option \<times> listener" where
  "for_loop inputs [] l = (None, l)"
| "for_loop inputs (i # is) l =
     (case loop_body (inputs i) i l of
        (Some err, _, l') \<Rightarrow> (Some err, l')
      | (None, go_on, l') \<Rightarrow> if go_on then for_loop inputs is l' else (None, l'))"

definition poll :: "(nat \<Rightarrow> step_input) \<Rightarrow> listener \<Rightarrow> error option \<times> listener" where
  "poll inputs l = for_loop inputs [0..<length (events_to_listen l)] l"

text \<open>
  \<^verbatim>\<open>process_events\<close> over the iterations observed so far: each is the answer of
  \<^verbatim>\<open>_stop_event.is_set()\<close> at the \<^verbatim>\<open>while\<close> and the inputs of the pass. The
  result is the state when the loop has ended (stop, or an exception that ends the
  thread) or after the last iteration given.
\<close>

fun process_events :: "(bool \<times> (nat \<Rightarrow> step_input)) list \<Rightarrow> listener \<Rightarrow> error option \<times> listener" where
  "process_events [] l = (None, l)"
| "process_events ((stopped, inputs) # rest) l =
     (if stopped then (None, l)
      else (case poll inputs l of
              (Some err, l') \<Rightarrow> (Some err, l')
            | (None, l') \<Rightarrow> process_events rest l'))"

definition got_events :: "listener \<Rightarrow> exp_event list" where
  "got_events l = events_to_listen l"

definition reset_events :: "listener \<Rightarrow> listener" where
  "reset_events l = l\<lparr>events_to_listen := []\<rparr>"

text \<open>\<^verbatim>\<open>all([len(...) ...])\<close>: a length is true when it is not zero.\<close>

definition check_expected_events :: "listener \<Rightarrow> bool" where
  "check_expected_events l = list_all (\<lambda>n. n \<noteq> 0) (map (\<lambda>e. length (matched_events e)) (got_events l))"

subsection \<open>Statements about the event source and the watermark\<close>

text \<open>
  The order of ids, with \<^verbatim>\<open>None\<close> (no watermark yet) below every id, and the
  comparison \<^verbatim>\<open>id > watermark\<close> of a query.
\<close>

fun id_le :: "pyval \<Rightarrow> pyval \<Rightarrow> bool" where
  "id_le PNone v = True"
| "id_le (PInt a) (PInt b) = (a \<le> b)"
| "id_le (PInt a) v = False"
| "id_le (PStr s) v = False"

fun greater :: "pyval \<Rightarrow> pyval \<Rightarrow> bool" where
  "greater (PInt a) (PInt b) = (b < a)"
| "greater (PInt a) PNone = True"
| "greater v w = False"

text \<open>A record satisfies a query.\<close>

fun holds :: "Q \<Rightarrow> entity \<Rightarrow> bool" where
  "holds (Q field op v) e =
     (if op = ''='' then getattr e field = v
      else if op = ''>'' then greater (getattr e field) v
      else False)"
| "holds (QAnd p q) e = (holds p e \<and> holds q e)"

text \<open>Each value assigned to the watermark is at least the value it replaces.\<close>

definition monotone_log :: "listener \<Rightarrow> bool" where
  "monotone_log l = successively (\<lambda>new old. id_le old new) (id_log l)"

subsection \<open>Inputs of the examples\<close>

text \<open>
  \<open>serving stream\<close> is an appliance whose event stream holds the records
  \<open>stream\<close> and answers a query with those that satisfy it, in the stream's order;
  its latest record is the last of \<open>stream\<close>; \<open>with_vm1\<close> has a VM named
  \<^verbatim>\<open>vm1\<close> with id 42 and no events.
\<close>

definition serving :: "entity list \<Rightarrow> appliance" where
  "serving stream =
     \<lparr>collection_filter = (\<lambda>c q. Inr []),
      event_streams_filter = (\<lambda>q. Inr (filter (holds q) stream)),
      event_streams_latest = Inr (case stream of [] \<Rightarrow> [] | _ \<Rightarrow> [last stream])\<rparr>"

definition with_vm1 :: appliance where
  "with_vm1 =
     \<lparr>collection_filter =
        (\<lambda>c q. if c = ''vms'' \<and> q = Q ''name'' ''='' (PStr ''vm1'') then Inr [\<lparr>rid = PInt 42\<rparr>]
               else Inr []),
      event_streams_filter = (\<lambda>q. Inr []),
      event_streams_latest = Inr []\<rparr>"

definition vm_create_record :: "int \<Rightarrow> entity" where
  "vm_create_record n =
     [(''id'', PInt n), (''event_type'', PStr ''vm_create''),
      (''target_type'', PStr ''VmOrTemplate''), (''target_id'', PInt 42)]"

text \<open>
  The expectations \<^verbatim>\<open>new_event(event_type='vm_create', target_id=42)\<close>,
  \<^verbatim>\<open>new_event(event_type='vm_create', target_type='VmOrTemplate', target_name=n)\<close>
  and \<^verbatim>\<open>new_event(event_type='vm_create')\<close>.
\<close>

definition vm_create_42 :: Event where
  "vm_create_42 =
     add_attrs Event_init
       [EventAttr_kw ''event_type'' (PStr ''vm_create''), EventAttr_kw ''target_id'' (PInt 42)]"

definition vm_create_named :: "string \<Rightarrow> Event" where
  "vm_create_named n =
     add_attrs Event_init
       [EventAttr_kw ''event_type'' (PStr ''vm_create''),
        EventAttr_kw ''target_type'' (PStr ''VmOrTemplate''),
        EventAttr_kw ''target_name'' (PStr n)]"

definition any_vm_create :: Event where
  "any_vm_create = add_attrs Event_init [EventAttr_kw ''event_type'' (PStr ''vm_create'')]"

text \<open>A new listener after \<^verbatim>\<open>listen_to(evt, first_event=first)\<close>.\<close>

definition listening :: "Event \<Rightarrow> bool \<Rightarrow> listener" where
  "listening evt first = snd (listen_to [EventObj evt] None first EventListener_init)"

text \<open>The same appliance at every entry of a pass, and no stop.\<close>

definition always :: "appliance \<Rightarrow> nat \<Rightarrow> step_input" where
  "always a i = \<lparr>tool = a, stop_is_set = False\<rparr>"

text \<open>A compare function that holds of different values only.\<close>

definition differs :: "pyval \<Rightarrow> pyval \<Rightarrow> bool" where
  "differs expected got = (expected \<noteq> got)"

text \<open>
  Expectations that do not match a copy of themselves: an empty message, and an id
  compared by \<open>differs\<close>.
\<close>

definition empty_message :: Event where
  "empty_message = add_attrs Event_init [EventAttr_kw ''message'' (PStr [])]"

definition id_differs :: Event where
  "id_differs =
     add_attrs Event_init [\<lparr>name = ''id'', val = PInt 7, atype = IntType, cmp_func = Some differs\<rparr>]"

definition only_message :: Event where
  "only_message = add_attrs Event_init [EventAttr_kw ''message'' (PStr ''created'')]"

text \<open>
  A listener with one expectation, started (\<open>started_at n\<close>) when the newest record of
  the event stream had id \<open>n\<close>.
\<close>

definition started_at :: "int \<Rightarrow> bool \<Rightarrow> listener" where
  "started_at n first = snd (start (serving [vm_create_record n]) (listening vm_create_42 first))"

text \<open>An appliance whose event stream raises at every call.\<close>

definition no_event_stream :: appliance where
  "no_event_stream =
     \<lparr>collection_filter = (\<lambda>c q. Inr []),
      event_streams_filter = (\<lambda>q. Inl (Raised ''event_streams'')),
      event_streams_latest = Inl (Raised ''event_streams'')\<rparr>"

subsection \<open>Predicates of the proofs\<close>

text \<open>An attribute that matches itself.\<close>

definition self_matching :: "EventAttr \<Rightarrow> bool" where
  "self_matching a =
     (val a = PNone \<or>
      (truthy (val a) \<and> (case cmp_func a of None \<Rightarrow> True | Some f \<Rightarrow> f (val a) (val a))))"

text \<open>The registry keeps its length and its entry \<open>i\<close>.\<close>

definition untouched :: "nat \<Rightarrow> listener \<Rightarrow> listener \<Rightarrow> bool" where
  "untouched i l l' =
     (length (events_to_listen l') = length (events_to_listen l)
      \<and> events_to_listen l' ! i = events_to_listen l ! i)"

section \<open>Properties\<close>

subsection \<open>EventAttr.match\<close>

text \<open>
  C3. For attributes of equal names: when either value is false (\<^verbatim>\<open>None\<close>, zero or
  empty), \<open>match\<close> returns whether both values are \<^verbatim>\<open>None\<close>; otherwise, with a
  compare function on the receiver, it returns the function's result on the receiver's
  and the argument's value; otherwise it returns whether the two values are equal.
\<close>

theorem match_equal_names:
  assumes "name self = name a"
  shows "(\<not> truthy (val a) \<or> \<not> truthy (val self) \<longrightarrow>
            match self (AttrObj a) = Inr (val a = PNone \<and> val self = PNone))
       \<and> (truthy (val a) \<and> truthy (val self) \<longrightarrow>
            (\<forall>f. cmp_func self = Some f \<longrightarrow> match self (AttrObj a) = Inr (f (val self) (val a))))
       \<and> (truthy (val a) \<and> truthy (val self) \<and> cmp_func self = None \<longrightarrow>
            match self (AttrObj a) = Inr (val self = val a))"
  using assms by (auto simp: match_def)

theorem match_equal_names_witness:
  "match (EventAttr_kw ''source'' (PStr ''EVM'')) (AttrObj (EventAttr_kw ''source'' (PStr ''EVM''))) = Inr True
   \<and> match (EventAttr_kw ''source'' (PStr [])) (AttrObj (EventAttr_kw ''source'' (PStr []))) = Inr False
   \<and> match (EventAttr_kw ''source'' PNone) (AttrObj (EventAttr_kw ''source'' PNone)) = Inr True
   \<and> match \<lparr>name = ''id'', val = PInt 7, atype = IntType, cmp_func = Some differs\<rparr>
        (AttrObj (EventAttr_kw ''id'' (PInt 8))) = Inr True"
  using match_equal_names [of "EventAttr_kw ''source'' (PStr ''EVM'')" "EventAttr_kw ''source'' (PStr ''EVM'')"]
        match_equal_names [of "EventAttr_kw ''source'' (PStr [])" "EventAttr_kw ''source'' (PStr [])"]
        match_equal_names [of "EventAttr_kw ''source'' PNone" "EventAttr_kw ''source'' PNone"]
        match_equal_names [of "\<lparr>name = ''id'', val = PInt 7, atype = IntType, cmp_func = Some differs\<rparr>"
                              "EventAttr_kw ''id'' (PInt 8)"]
  by (simp add: EventAttr_kw_def differs_def)

text \<open>
  C10. \<open>match\<close> raises ValueError (\<^verbatim>\<open>Incorrect attribute is passed\<close>) when its argument
  is not an EventAttr, and when the argument's name is not the receiver's.
\<close>

theorem match_raises:
  "match self (OtherObj v) = Inl (ValueError ''Incorrect attribute is passed'')
   \<and> (name self \<noteq> name a \<longrightarrow>
        match self (AttrObj a) = Inl (ValueError ''Incorrect attribute is passed''))"
  by (simp add: match_def)

theorem match_raises_witness:
  "match (EventAttr_kw ''source'' (PStr ''EVM'')) (AttrObj (EventAttr_kw ''message'' (PStr ''EVM'')))
     = Inl (ValueError ''Incorrect attribute is passed'')"
  using match_raises [of "EventAttr_kw ''source'' (PStr ''EVM'')" _ "EventAttr_kw ''message'' (PStr ''EVM'')"]
  by (simp add: EventAttr_kw_def)

subsection \<open>Event.matches\<close>

lemma lookup_keys: "lookup e k \<noteq> None \<longleftrightarrow> k \<in> set (keys e)"
  by (simp add: lookup_def keys_def map_of_eq_None_iff)

lemma lookup_store: "lookup (store e k a) k' = (if k' = k then Some a else lookup e k')"
  by (simp add: lookup_def store_def update_conv')

lemma matches_loop_True:
  "matches_loop a b ks = Inr True \<longleftrightarrow>
     (\<forall>k \<in> set ks. \<exists>x y. lookup a k = Some x \<and> lookup b k = Some y \<and> match x (AttrObj y) = Inr True)"
  by (induction ks) (auto split: option.splits sum.splits)

lemma set_common_attrs: "set (common_attrs a b) = set (keys a) \<inter> set (keys b)"
  by (auto simp: common_attrs_def)

lemma keyed_lookup: "keyed_by_name e \<Longrightarrow> lookup e k = Some a \<Longrightarrow> name a = k"
  by (auto simp: keyed_by_name_def lookup_def list_all_iff dest!: map_of_SomeD)

lemma match_total:
  "name x = name y \<Longrightarrow> match x (AttrObj y) = Inr True \<or> match x (AttrObj y) = Inr False"
  by (auto simp: match_def split: option.splits)

lemma matches_loop_total:
  "keyed_by_name a \<Longrightarrow> keyed_by_name b \<Longrightarrow> set ks \<subseteq> set (keys a) \<inter> set (keys b) \<Longrightarrow>
   matches_loop a b ks = Inr True \<or> matches_loop a b ks = Inr False"
proof (induction ks)
  case Nil
  show ?case by simp
next
  case (Cons k ks)
  from Cons.prems obtain x y where xy: "lookup a k = Some x" "lookup b k = Some y"
    using lookup_keys [of a k] lookup_keys [of b k] by auto
  with Cons.prems have "name x = name y" by (simp add: keyed_lookup)
  then have "match x (AttrObj y) = Inr True \<or> match x (AttrObj y) = Inr False"
    by (rule match_total)
  with xy Cons show ?case by auto
qed

text \<open>
  C5. \<open>matches a b\<close> returns true exactly when every attribute of \<open>a\<close> whose key is
  also a key of \<open>b\<close> matches the attribute of \<open>b\<close> under that key; so it returns true
  when the two have no key in common, whatever else they hold. For events that store
  each attribute under its name, as the class does, the call returns that truth value
  and never raises.
\<close>

theorem matches_iff_common:
  "(matches a b = Inr True \<longleftrightarrow>
      (\<forall>k \<in> set (keys a) \<inter> set (keys b).
         \<exists>x y. lookup a k = Some x \<and> lookup b k = Some y \<and> match x (AttrObj y) = Inr True))
   \<and> (set (keys a) \<inter> set (keys b) = {} \<longrightarrow> matches a b = Inr True)
   \<and> (keyed_by_name a \<and> keyed_by_name b \<longrightarrow>
        matches a b = Inr (\<forall>k \<in> set (keys a) \<inter> set (keys b).
           \<exists>x y. lookup a k = Some x \<and> lookup b k = Some y \<and> match x (AttrObj y) = Inr True))"
proof -
  have 1: "matches a b = Inr True \<longleftrightarrow>
      (\<forall>k \<in> set (keys a) \<inter> set (keys b).
         \<exists>x y. lookup a k = Some x \<and> lookup b k = Some y \<and> match x (AttrObj y) = Inr True)"
    unfolding matches_def matches_loop_True set_common_attrs ..
  have 2: "set (keys a) \<inter> set (keys b) = {} \<longrightarrow> matches a b = Inr True"
    using 1 by simp
  have 3: "keyed_by_name a \<and> keyed_by_name b \<longrightarrow>
             matches a b = Inr True \<or> matches a b = Inr False"
    unfolding matches_def using matches_loop_total [of a b "common_attrs a b"]
    by (simp add: set_common_attrs)
  have 4: "keyed_by_name a \<and> keyed_by_name b \<longrightarrow>
        matches a b = Inr (\<forall>k \<in> set (keys a) \<inter> set (keys b).
           \<exists>x y. lookup a k = Some x \<and> lookup b k = Some y \<and> match x (AttrObj y) = Inr True)"
  proof
    assume "keyed_by_name a \<and> keyed_by_name b"
    with 3 have "matches a b = Inr True \<or> matches a b = Inr False" by blast
    then show "matches a b = Inr (\<forall>k \<in> set (keys a) \<inter> set (keys b).
           \<exists>x y. lookup a k = Some x \<and> lookup b k = Some y \<and> match x (AttrObj y) = Inr True)"
      using 1 by auto
  qed
  from 1 2 4 show ?thesis by blast
qed

theorem matches_iff_common_witness:
  "matches vm_create_42 (build_from_entity Event_init (vm_create_record 5)) = Inr True
   \<and> set (keys vm_create_42) \<inter> set (keys only_message) = {}
   \<and> matches vm_create_42 only_message = Inr True
   \<and> keyed_by_name vm_create_42 \<and> keyed_by_name (build_from_entity Event_init (vm_create_record 5))"
proof -
  let ?got = "build_from_entity Event_init (vm_create_record 5)"
  have c: "\<forall>k \<in> set (keys vm_create_42) \<inter> set (keys ?got).
        \<exists>x y. lookup vm_create_42 k = Some x \<and> lookup ?got k = Some y \<and> match x (AttrObj y) = Inr True"
    by (auto simp: keys_def lookup_def vm_create_42_def build_from_entity_def Event_init_def
          vm_create_record_def store_def DEFAULT_ATTRS_def EventAttr_kw_def match_def getattr_def)
  have d: "set (keys vm_create_42) \<inter> set (keys only_message) = {}"
    by code_simp
  have k: "keyed_by_name vm_create_42 \<and> keyed_by_name ?got"
    by code_simp
  from c d k matches_iff_common [of vm_create_42 ?got] matches_iff_common [of vm_create_42 only_message]
  show ?thesis by blast
qed

lemma match_self: "match a (AttrObj a) = Inr (self_matching a)"
  by (auto simp: match_def self_matching_def split: option.splits)

lemma lookup_list_all:
  "list_all (\<lambda>(k, a). P a) (event_attrs d) \<Longrightarrow> \<forall>k a. lookup d k = Some a \<longrightarrow> P a"
  by (auto simp: lookup_def list_all_iff dest!: map_of_SomeD)

text \<open>
  C4, as amended. \<open>matches d d\<close> returns true exactly when every attribute of \<open>d\<close>
  matches itself: its value is \<^verbatim>\<open>None\<close>, or its value is true (not zero, not empty)
  and its compare function, if it has one, holds of the value and itself. An event
  with an empty or zero value, or with a compare function that is not reflexive, does
  not match its copy, as \<open>empty_message\<close> and \<open>id_differs\<close> show.
\<close>

theorem matches_copy:
  "matches d d = Inr True \<longleftrightarrow> (\<forall>k a. lookup d k = Some a \<longrightarrow> self_matching a)"
proof -
  have "matches d d = Inr True \<longleftrightarrow>
          (\<forall>k \<in> set (keys d). \<exists>x. lookup d k = Some x \<and> match x (AttrObj x) = Inr True)"
    (is "_ \<longleftrightarrow> ?L")
    unfolding matches_def matches_loop_True set_common_attrs by auto
  also have "?L \<longleftrightarrow> (\<forall>k a. lookup d k = Some a \<longrightarrow> self_matching a)" (is "_ \<longleftrightarrow> ?R")
  proof
    assume l: ?L
    show ?R
    proof (intro allI impI)
      fix k a
      assume a: "lookup d k = Some a"
      then have "k \<in> set (keys d)" using lookup_keys [of d k] by simp
      with l obtain x where "lookup d k = Some x" "match x (AttrObj x) = Inr True" by blast
      with a show "self_matching a" by (simp add: match_self)
    qed
  next
    assume r: ?R
    show ?L
    proof
      fix k
      assume "k \<in> set (keys d)"
      then obtain x where "lookup d k = Some x"
        using lookup_keys [of d k] by (cases "lookup d k") auto
      with r show "\<exists>x. lookup d k = Some x \<and> match x (AttrObj x) = Inr True"
        by (simp add: match_self)
    qed
  qed
  finally show ?thesis .
qed

theorem matches_copy_witness:
  "list_all (\<lambda>(k, a). self_matching a) (event_attrs vm_create_42)
   \<and> matches vm_create_42 vm_create_42 = Inr True"
proof -
  have s: "list_all (\<lambda>(k, a). self_matching a) (event_attrs vm_create_42)" by code_simp
  from matches_copy [of vm_create_42] lookup_list_all [OF s] s show ?thesis by blast
qed

theorem matches_copy_counterexample:
  "matches empty_message empty_message = Inr False \<and> matches id_differs id_differs = Inr False"
  by code_simp

subsection \<open>EventTool.process_id\<close>

lemma target_rest_of_None: "target_rest_of t = None \<longleftrightarrow> t \<notin> PStr ` fst ` set TARGET_TYPES"
  by (cases t) (auto simp: TARGET_TYPES_def)

lemma target_rest_of_Some:
  "target_rest_of t = Some c \<longleftrightarrow> (\<exists>s. t = PStr s \<and> (s, c) \<in> set TARGET_TYPES)"
  by (cases t) (auto simp: TARGET_TYPES_def)

text \<open>
  C7. \<open>process_id\<close> returns a number unchanged, whatever the type. For any other
  name it raises TypeError when the type is not a key of \<open>TARGET_TYPES\<close>; otherwise
  it asks the mapped collection for the records whose name equals the given one, raises
  ValueError (not found) when there is none, and returns the id of the first otherwise.
\<close>

theorem process_id_cases:
  "(is_number n \<longrightarrow> process_id a t n = Inr n)
   \<and> (\<not> is_number n \<and> t \<notin> PStr ` fst ` set TARGET_TYPES \<longrightarrow> (\<exists>m. process_id a t n = Inl (TypeError m)))
   \<and> (\<not> is_number n \<longrightarrow>
        (\<forall>s c. t = PStr s \<and> (s, c) \<in> set TARGET_TYPES \<longrightarrow>
           (collection_filter a c (Q ''name'' ''='' n) = Inr [] \<longrightarrow>
              process_id a t n = Inl (ValueError ''{} with name {} not found.''))
         \<and> (\<forall>r rs. collection_filter a c (Q ''name'' ''='' n) = Inr (r # rs) \<longrightarrow>
              process_id a t n = Inr (rid r))))"
proof -
  have 1: "is_number n \<longrightarrow> process_id a t n = Inr n"
    by (simp add: process_id_def)
  have 2: "\<not> is_number n \<and> t \<notin> PStr ` fst ` set TARGET_TYPES \<longrightarrow>
             (\<exists>m. process_id a t n = Inl (TypeError m))"
  proof
    assume h: "\<not> is_number n \<and> t \<notin> PStr ` fst ` set TARGET_TYPES"
    then have "target_rest_of t = None" using target_rest_of_None [of t] by blast
    with h show "\<exists>m. process_id a t n = Inl (TypeError m)"
      by (simp add: process_id_def)
  qed
  have 3: "\<not> is_number n \<longrightarrow>
        (\<forall>s c. t = PStr s \<and> (s, c) \<in> set TARGET_TYPES \<longrightarrow>
           (collection_filter a c (Q ''name'' ''='' n) = Inr [] \<longrightarrow>
              process_id a t n = Inl (ValueError ''{} with name {} not found.''))
         \<and> (\<forall>r rs. collection_filter a c (Q ''name'' ''='' n) = Inr (r # rs) \<longrightarrow>
              process_id a t n = Inr (rid r)))"
  proof (intro impI allI)
    fix s c
    assume n: "\<not> is_number n" and "t = PStr s \<and> (s, c) \<in> set TARGET_TYPES"
    then have "target_rest_of t = Some c" using target_rest_of_Some [of t c] by blast
    with n show "(collection_filter a c (Q ''name'' ''='' n) = Inr [] \<longrightarrow>
              process_id a t n = Inl (ValueError ''{} with name {} not found.''))
         \<and> (\<forall>r rs. collection_filter a c (Q ''name'' ''='' n) = Inr (r # rs) \<longrightarrow>
              process_id a t n = Inr (rid r))"
      by (simp add: process_id_def)
  qed
  from 1 2 3 show ?thesis by blast
qed

theorem process_id_cases_witness:
  "process_id with_vm1 (PStr ''Cluster'') (PInt 7) = Inr (PInt 7)
   \<and> (\<exists>m. process_id with_vm1 (PStr ''Cluster'') (PStr ''vm1'') = Inl (TypeError m))
   \<and> process_id with_vm1 (PStr ''VmOrTemplate'') (PStr ''vm2'')
       = Inl (ValueError ''{} with name {} not found.'')
   \<and> process_id with_vm1 (PStr ''VmOrTemplate'') (PStr ''vm1'') = Inr (PInt 42)"
proof -
  have k: "PStr ''Cluster'' \<notin> PStr ` fst ` set TARGET_TYPES"
    by (auto simp: TARGET_TYPES_def)
  have m: "(''VmOrTemplate'', ''vms'') \<in> set TARGET_TYPES"
    by (simp add: TARGET_TYPES_def)
  have e: "collection_filter with_vm1 ''vms'' (Q ''name'' ''='' (PStr ''vm2'')) = Inr []"
    by (simp add: with_vm1_def)
  have f: "collection_filter with_vm1 ''vms'' (Q ''name'' ''='' (PStr ''vm1''))
             = Inr [\<lparr>rid = PInt 42\<rparr>]"
    by (simp add: with_vm1_def)
  have n: "is_number (PInt 7)" "\<not> is_number (PStr ''vm1'')" "\<not> is_number (PStr ''vm2'')"
    by simp_all
  from process_id_cases [where n = "PInt 7" and a = with_vm1 and t = "PStr ''Cluster''"] n
  have 1: "process_id with_vm1 (PStr ''Cluster'') (PInt 7) = Inr (PInt 7)" by blast
  from process_id_cases [where n = "PStr ''vm1''" and a = with_vm1 and t = "PStr ''Cluster''"] n k
  have 2: "\<exists>m. process_id with_vm1 (PStr ''Cluster'') (PStr ''vm1'') = Inl (TypeError m)" by blast
  from process_id_cases [where n = "PStr ''vm2''" and a = with_vm1 and t = "PStr ''VmOrTemplate''"] n m e
  have 3: "process_id with_vm1 (PStr ''VmOrTemplate'') (PStr ''vm2'')
             = Inl (ValueError ''{} with name {} not found.'')" by blast
  from process_id_cases [where n = "PStr ''vm1''" and a = with_vm1 and t = "PStr ''VmOrTemplate''"] n m f
  have 4: "process_id with_vm1 (PStr ''VmOrTemplate'') (PStr ''vm1'') = Inr (rid \<lparr>rid = PInt 42\<rparr>)"
    by blast
  from 1 2 3 4 show ?thesis by simp
qed

subsection \<open>Event.add_target_id\<close>

text \<open>
  C6. \<open>add_target_id\<close> leaves the event as it is when it has no \<^verbatim>\<open>target_name\<close> or
  already has a \<^verbatim>\<open>target_id\<close>. Otherwise, when \<open>process_id\<close> returns an id, the
  event gets that id as its \<^verbatim>\<open>target_id\<close> attribute and keeps every other attribute,
  and when \<open>process_id\<close> raises ValueError (not found) the event is left as it is and
  nothing is raised.
\<close>

theorem add_target_id_cases:
  "(''target_name'' \<notin> set (keys e) \<or> ''target_id'' \<in> set (keys e) \<longrightarrow> add_target_id a e = Inr e)
   \<and> (''target_name'' \<in> set (keys e) \<and> ''target_id'' \<notin> set (keys e) \<longrightarrow>
        (\<forall>tt tn. lookup e ''target_type'' = Some tt \<and> lookup e ''target_name'' = Some tn \<longrightarrow>
           (\<forall>i. process_id a (val tt) (val tn) = Inr i \<longrightarrow>
                (\<exists>e'. add_target_id a e = Inr e'
                     \<and> lookup e' ''target_id'' = Some (EventAttr_kw ''target_id'' i)
                     \<and> (\<forall>k. k \<noteq> ''target_id'' \<longrightarrow> lookup e' k = lookup e k)))
         \<and> (\<forall>m. process_id a (val tt) (val tn) = Inl (ValueError m) \<longrightarrow> add_target_id a e = Inr e)))"
  by (auto simp: add_target_id_def lookup_store)

theorem add_target_id_cases_witness:
  "add_target_id with_vm1 vm_create_42 = Inr vm_create_42
   \<and> add_target_id with_vm1 any_vm_create = Inr any_vm_create
   \<and> (\<exists>e'. add_target_id with_vm1 (vm_create_named ''vm1'') = Inr e'
          \<and> lookup e' ''target_id'' = Some (EventAttr_kw ''target_id'' (PInt 42)))
   \<and> add_target_id with_vm1 (vm_create_named ''vm2'') = Inr (vm_create_named ''vm2'')"
proof -
  have k1: "''target_id'' \<in> set (keys vm_create_42)" by code_simp
  have k2: "''target_name'' \<notin> set (keys any_vm_create)" by code_simp
  have k3: "''target_name'' \<in> set (keys (vm_create_named n)) \<and> ''target_id'' \<notin> set (keys (vm_create_named n))" for n
    by (simp add: vm_create_named_def keys_def store_def Event_init_def EventAttr_kw_def DEFAULT_ATTRS_def)
  have l: "lookup (vm_create_named n) ''target_type'' = Some (EventAttr_kw ''target_type'' (PStr ''VmOrTemplate''))
         \<and> lookup (vm_create_named n) ''target_name'' = Some (EventAttr_kw ''target_name'' (PStr n))" for n
    by (simp add: vm_create_named_def lookup_def store_def Event_init_def EventAttr_kw_def DEFAULT_ATTRS_def)
  have p1: "process_id with_vm1 (val (EventAttr_kw ''target_type'' (PStr ''VmOrTemplate'')))
              (val (EventAttr_kw ''target_name'' (PStr ''vm1''))) = Inr (PInt 42)"
    by code_simp
  have p2: "process_id with_vm1 (val (EventAttr_kw ''target_type'' (PStr ''VmOrTemplate'')))
              (val (EventAttr_kw ''target_name'' (PStr ''vm2'')))
            = Inl (ValueError ''{} with name {} not found.'')"
    by code_simp
  from add_target_id_cases [where e = vm_create_42 and a = with_vm1] k1
  have 1: "add_target_id with_vm1 vm_create_42 = Inr vm_create_42" by blast
  from add_target_id_cases [where e = any_vm_create and a = with_vm1] k2
  have 2: "add_target_id with_vm1 any_vm_create = Inr any_vm_create" by blast
  from add_target_id_cases [where e = "vm_create_named ''vm1''" and a = with_vm1] k3 [of "''vm1''"] l [of "''vm1''"] p1
  have 3: "\<exists>e'. add_target_id with_vm1 (vm_create_named ''vm1'') = Inr e'
          \<and> lookup e' ''target_id'' = Some (EventAttr_kw ''target_id'' (PInt 42))" by blast
  from add_target_id_cases [where e = "vm_create_named ''vm2''" and a = with_vm1] k3 [of "''vm2''"] l [of "''vm2''"] p2
  have 4: "add_target_id with_vm1 (vm_create_named ''vm2'') = Inr (vm_create_named ''vm2'')" by blast
  from 1 2 3 4 show ?thesis by blast
qed

subsection \<open>check_expected_events and reset_events\<close>

text \<open>
  C9. \<open>check_expected_events\<close> returns true exactly when every entry of the registry
  has a matched event; after \<open>reset_events\<close> the registry is empty and it returns
  true.
\<close>

theorem check_expected_events_iff:
  "(check_expected_events l \<longleftrightarrow> (\<forall>e \<in> set (events_to_listen l). matched_events e \<noteq> []))
   \<and> check_expected_events (reset_events l)"
  by (simp add: check_expected_events_def got_events_def reset_events_def list_all_iff)

theorem check_expected_events_iff_witness:
  "\<not> check_expected_events (started_at 4 True)
   \<and> check_expected_events (snd (process_events
        [(False, always (serving [vm_create_record 4, vm_create_record 5]))] (started_at 4 True)))
   \<and> check_expected_events (reset_events (started_at 4 True))"
proof -
  let ?l1 = "snd (process_events
        [(False, always (serving [vm_create_record 4, vm_create_record 5]))] (started_at 4 True))"
  have a: "\<not> (\<forall>e \<in> set (events_to_listen (started_at 4 True)). matched_events e \<noteq> [])"
    by code_simp
  have b: "\<forall>e \<in> set (events_to_listen ?l1). matched_events e \<noteq> []"
    by code_simp
  from a b check_expected_events_iff [of "started_at 4 True"] check_expected_events_iff [of ?l1]
  show ?thesis by blast
qed

subsection \<open>What the polling loop changes in the registry\<close>

text \<open>
  The body of the loop for the entry at index \<open>j\<close> changes no other entry, and the
  registry keeps its length.
\<close>

lemma set_last_record_events:
  "set_last_record a evt l = (err, l') \<Longrightarrow> events_to_listen l' = events_to_listen l"
  by (auto simp: set_last_record_def assign_last_processed_id_def
           split: option.splits sum.splits error.splits list.splits)

lemma process_entity_frame:
  assumes "process_entity a j e l = (err, l')"
  shows "length (events_to_listen l') = length (events_to_listen l)
       \<and> (\<forall>i. i \<noteq> j \<longrightarrow> events_to_listen l' ! i = events_to_listen l ! i)"
  using assms
  by (auto simp: process_entity_def Let_def
           split: sum.splits if_splits option.splits dest!: set_last_record_events)

lemma match_events_frame:
  "match_events a j es l = (err, l') \<Longrightarrow>
   length (events_to_listen l') = length (events_to_listen l)
   \<and> (\<forall>i. i \<noteq> j \<longrightarrow> events_to_listen l' ! i = events_to_listen l ! i)"
proof (induction es arbitrary: l)
  case Nil
  then show ?case by simp
next
  case (Cons e es)
  obtain err1 l1 where p: "process_entity a j e l = (err1, l1)" by (cases "process_entity a j e l")
  note f = process_entity_frame [OF p]
  show ?case
  proof (cases err1)
    case None
    with p Cons.prems have "match_events a j es l1 = (err, l')" by simp
    from Cons.IH [OF this] f show ?thesis by simp
  next
    case (Some x)
    with p Cons.prems have "l' = l1" by simp
    with f show ?thesis by simp
  qed
qed

lemma loop_body_frame:
  assumes "loop_body inp j l = (err, go, l')"
  shows "length (events_to_listen l') = length (events_to_listen l)
       \<and> (\<forall>i. i \<noteq> j \<longrightarrow> events_to_listen l' ! i = events_to_listen l ! i)"
proof (cases "first_event (events_to_listen l ! j) \<and> length (matched_events (events_to_listen l ! j)) > 0")
  case True
  with assms have "l' = l" by (simp add: loop_body_def Let_def)
  then show ?thesis by simp
next
  case False
  obtain r evt' where g: "get_next_portion (tool inp) l (event (events_to_listen l ! j)) = (r, evt')"
    by (cases "get_next_portion (tool inp) l (event (events_to_listen l ! j))")
  define l1 where "l1 = l\<lparr>events_to_listen := (events_to_listen l)[j := (events_to_listen l ! j)\<lparr>event := evt'\<rparr>]\<rparr>"
  have l1: "length (events_to_listen l1) = length (events_to_listen l)
       \<and> (\<forall>i. i \<noteq> j \<longrightarrow> events_to_listen l1 ! i = events_to_listen l ! i)"
    by (simp add: l1_def)
  have "l' = l1 \<or> (\<exists>es err2. match_events (tool inp) j es l1 = (err2, l'))"
  proof (cases "match_events (tool inp) j (case r of Inr (Some es) \<Rightarrow> es | _ \<Rightarrow> []) l1")
    case (Pair err2 l2)
    with assms False g show ?thesis
      by (auto simp: loop_body_def Let_def l1_def simp del: match_events.simps
               split: sum.splits option.splits list.splits)
  qed
  then show ?thesis
  proof
    assume "l' = l1" with l1 show ?thesis by simp
  next
    assume "\<exists>es err2. match_events (tool inp) j es l1 = (err2, l')"
    then obtain es err2 where "match_events (tool inp) j es l1 = (err2, l')" by blast
    from match_events_frame [OF this] l1 show ?thesis by simp
  qed
qed

subsection \<open>Expectations with no target\<close>

lemma get_next_portion_no_target:
  assumes "''target_id'' \<notin> set (keys evt)" and "''target_name'' \<notin> set (keys evt)"
  shows "get_next_portion a l evt = (Inr None, evt)"
  using assms by (simp add: get_next_portion_def add_target_id_def)

lemma loop_body_no_target:
  assumes "''target_id'' \<notin> set (keys (event (events_to_listen l ! i)))"
      and "''target_name'' \<notin> set (keys (event (events_to_listen l ! i)))"
      and "loop_body inp i l = (err, go, l')"
  shows "events_to_listen l' = events_to_listen l"
  using assms get_next_portion_no_target [OF assms(1,2), of "tool inp" l]
  by (auto simp: loop_body_def Let_def split: if_splits)

lemma loop_body_untouched:
  assumes "''target_id'' \<notin> set (keys (event (events_to_listen l ! i)))"
      and "''target_name'' \<notin> set (keys (event (events_to_listen l ! i)))"
      and "loop_body inp j l = (err, go, l')"
  shows "untouched i l l'"
proof (cases "j = i")
  case True
  with assms loop_body_no_target [of l i inp err go l'] show ?thesis by (simp add: untouched_def)
next
  case False
  with loop_body_frame [OF assms(3)] show ?thesis by (simp add: untouched_def)
qed

lemma for_loop_untouched:
  "''target_id'' \<notin> set (keys (event (events_to_listen l ! i))) \<Longrightarrow>
   ''target_name'' \<notin> set (keys (event (events_to_listen l ! i))) \<Longrightarrow>
   untouched i l (snd (for_loop inputs js l))"
proof (induction js arbitrary: l)
  case Nil
  then show ?case by (simp add: untouched_def)
next
  case (Cons j js)
  obtain err go l1 where b: "loop_body (inputs j) j l = (err, go, l1)"
    by (cases "loop_body (inputs j) j l") auto
  from loop_body_untouched [OF Cons.prems b] have u: "untouched i l l1" .
  show ?case
  proof (cases "err = None \<and> go")
    case True
    with b have s: "for_loop inputs (j # js) l = for_loop inputs js l1" by auto
    from u Cons.prems have "untouched i l1 (snd (for_loop inputs js l1))"
      by (intro Cons.IH) (simp_all add: untouched_def)
    with u s show ?thesis by (simp add: untouched_def)
  next
    case False
    with b have "snd (for_loop inputs (j # js) l) = l1" by (cases err) auto
    with u show ?thesis by simp
  qed
qed

lemma process_events_untouched:
  "''target_id'' \<notin> set (keys (event (events_to_listen l ! i))) \<Longrightarrow>
   ''target_name'' \<notin> set (keys (event (events_to_listen l ! i))) \<Longrightarrow>
   untouched i l (snd (process_events iters l))"
proof (induction iters arbitrary: l)
  case Nil
  then show ?case by (simp add: untouched_def)
next
  case (Cons it iters)
  obtain stopped inputs where it: "it = (stopped, inputs)" by (cases it)
  obtain err l1 where p: "poll inputs l = (err, l1)" by (cases "poll inputs l")
  have u: "untouched i l l1"
    using for_loop_untouched [OF Cons.prems, of inputs "[0..<length (events_to_listen l)]"] p
    by (simp add: poll_def)
  show ?case
  proof (cases "\<not> stopped \<and> err = None")
    case True
    with it p have s: "process_events (it # iters) l = process_events iters l1" by simp
    from u Cons.prems have "untouched i l1 (snd (process_events iters l1))"
      by (intro Cons.IH) (simp_all add: untouched_def)
    with u s show ?thesis by (simp add: untouched_def)
  next
    case False
    with it p have "snd (process_events (it # iters) l) = l1 \<or> snd (process_events (it # iters) l) = l"
      by (cases err) auto
    with u show ?thesis by (auto simp: untouched_def)
  qed
qed

text \<open>
  C8. For an entry of the registry whose expectation has neither a \<^verbatim>\<open>target_id\<close>
  nor a \<^verbatim>\<open>target_name\<close>, \<open>get_next_portion\<close> returns the bare \<^verbatim>\<open>return\<close> and
  the expectation unchanged, on every appliance: also on one whose event stream raises
  at every call, so the event stream is not called. Through any iterations of
  \<open>process_events\<close> the entry stays as it is, its matched events included.
\<close>

theorem no_target_never_matched:
  assumes "i < length (events_to_listen l)"
      and "''target_id'' \<notin> set (keys (event (events_to_listen l ! i)))"
      and "''target_name'' \<notin> set (keys (event (events_to_listen l ! i)))"
  shows "get_next_portion a l (event (events_to_listen l ! i)) = (Inr None, event (events_to_listen l ! i))
       \<and> length (events_to_listen (snd (process_events iters l))) = length (events_to_listen l)
       \<and> events_to_listen (snd (process_events iters l)) ! i = events_to_listen l ! i"
  using get_next_portion_no_target [OF assms(2,3)] process_events_untouched [OF assms(2,3), of iters]
  by (simp add: untouched_def)

theorem no_target_never_matched_witness:
  "get_next_portion no_event_stream (listening any_vm_create False) any_vm_create = (Inr None, any_vm_create)
   \<and> matched_events (events_to_listen (snd (process_events
        [(False, always (serving [vm_create_record 5])), (False, always (serving [vm_create_record 5]))]
        (listening any_vm_create False))) ! 0) = []"
proof -
  let ?l = "listening any_vm_create False"
  have l: "events_to_listen ?l =
             [\<lparr>event = any_vm_create, callback = None, matched_events = [], first_event = False\<rparr>]"
    by (simp add: listening_def EventListener_init_def)
  have k: "''target_id'' \<notin> set (keys any_vm_create)" "''target_name'' \<notin> set (keys any_vm_create)"
    by code_simp+
  from l k have h: "0 < length (events_to_listen ?l)"
      "''target_id'' \<notin> set (keys (event (events_to_listen ?l ! 0)))"
      "''target_name'' \<notin> set (keys (event (events_to_listen ?l ! 0)))"
    by simp_all
  from no_target_never_matched [OF h, of no_event_stream
         "[(False, always (serving [vm_create_record 5])), (False, always (serving [vm_create_record 5]))]"]
       l
  show ?thesis by simp
qed


subsection \<open>The watermark\<close>

text \<open>
  C2. The loop assigns to the watermark the id of each record of an answer, in the
  order received, and compares nothing. A listener started at id 2 polls twice an
  event stream that holds the records 2, 5 and 3 in that order and answers a query
  with the records that satisfy it. The first answer is 5, 3: the watermark goes from
  2 to 5 and then down to 3. The second query asks for ids above 3, so record 5 comes
  again and is matched a second time.
\<close>

theorem watermark_decreases:
  "last_processed_id (started_at 2 False) = PInt 2
   \<and> event_streams_filter (serving [vm_create_record 2, vm_create_record 5, vm_create_record 3])
        (QAnd (QAnd (Q ''id'' ''>'' (PInt 2)) (Q ''event_type'' ''='' (PStr ''vm_create'')))
              (Q ''target_id'' ''='' (PInt 42)))
       = Inr [vm_create_record 5, vm_create_record 3]
   \<and> id_log (snd (process_events
        [(False, always (serving [vm_create_record 2, vm_create_record 5, vm_create_record 3]))]
        (started_at 2 False))) = [PInt 3, PInt 5, PInt 2, PNone]
   \<and> id_log (snd (process_events
        [(False, always (serving [vm_create_record 2, vm_create_record 5, vm_create_record 3])),
         (False, always (serving [vm_create_record 2, vm_create_record 5, vm_create_record 3]))]
        (started_at 2 False))) = [PInt 5, PInt 3, PInt 5, PInt 2, PNone]
   \<and> map (\<lambda>e. map_option val (lookup e ''id''))
        (matched_events (events_to_listen (snd (process_events
          [(False, always (serving [vm_create_record 2, vm_create_record 5, vm_create_record 3])),
           (False, always (serving [vm_create_record 2, vm_create_record 5, vm_create_record 3]))]
          (started_at 2 False))) ! 0))
       = [Some (PInt 5), Some (PInt 3), Some (PInt 5)]
   \<and> \<not> monotone_log (snd (process_events
        [(False, always (serving [vm_create_record 2, vm_create_record 5, vm_create_record 3]))]
        (started_at 2 False)))"
  by code_simp

subsection \<open>The first-event flag\<close>

lemma loop_body_first_event_done:
  assumes "first_event (events_to_listen l ! i)" and "matched_events (events_to_listen l ! i) \<noteq> []"
  shows "loop_body inp i l = (None, True, l)"
  using assms by (simp add: loop_body_def Let_def)

text \<open>
  C1. The check of \<^verbatim>\<open>first_event\<close> stands before the query and not inside the loop
  over the records of the answer: a listener started at id 4, with one expectation
  registered with \<^verbatim>\<open>first_event=True\<close>, that receives the matching records 5 and 6
  in one answer, holds two matched events after that pass.
\<close>

theorem first_event_matched_twice:
  "first_event (events_to_listen (snd (process_events
       [(False, always (serving [vm_create_record 4, vm_create_record 5, vm_create_record 6]))]
       (started_at 4 True))) ! 0)
   \<and> length (matched_events (events_to_listen (snd (process_events
       [(False, always (serving [vm_create_record 4, vm_create_record 5, vm_create_record 6]))]
       (started_at 4 True))) ! 0)) = 2"
  by code_simp

end
